theory Spec2Isabelle
  imports Main "HOL-Library.AList"
begin

section \<open>Telegram mail bot: credential vault, mail transport, statistics, admin commands\<close>

text \<open>
  A shallow embedding of \<^verbatim>\<open>main.py\<close>. The process-wide objects of the program (the Redis
  client, the logger, the chat connection, the mail server, the environment) become one
  explicit \<open>world\<close> value that every function takes and returns. Exceptions are values of
  the type \<open>error\<close>; a function that can raise returns \<open>error + 'a\<close>.
\<close>

subsection \<open>Bytes, text and the UTF-8 codec\<close>

text \<open>
  Python \<^verbatim>\<open>bytes\<close> are lists of 8-bit characters. A Python \<^verbatim>\<open>str\<close> is represented by the
  list of its UTF-8 code units, so \<^verbatim>\<open>str.encode()\<close> is the identity on the representation and
  \<^verbatim>\<open>bytes.decode()\<close> succeeds exactly on well-formed UTF-8 (Unicode table 3-7: no overlong
  forms, no surrogates, nothing above U+10FFFF).
\<close>

type_synonym bytes = string

datatype smtp_stage = AtConnect | AtStartTLS | AtLogin | AtSend

datatype error =
    ConnectionError        \<comment> \<open>redis.exceptions.ConnectionError: the store is unreachable\<close>
  | ResponseError          \<comment> \<open>redis.exceptions.ResponseError: wrong type, not an integer, overflow\<close>
  | ValueError             \<comment> \<open>int() of a non-number, Fernet() of a malformed key\<close>
  | UnicodeDecodeError     \<comment> \<open>bytes.decode() of ill-formed UTF-8\<close>
  | InvalidToken           \<comment> \<open>cryptography.fernet.InvalidToken\<close>
  | FileNotFoundError      \<comment> \<open>open() of a missing log file\<close>
  | SMTPException smtp_stage  \<comment> \<open>any smtplib or socket error, tagged with the step that raised\<close>
  | ChatError              \<comment> \<open>event.respond raised\<close>
  | SMTPNotConfigured      \<comment> \<open>Exception("SMTP not configured")\<close>
  | DataError              \<comment> \<open>redis.exceptions.DataError: hset without field-value pairs\<close>

definition byte_in :: "nat \<Rightarrow> nat \<Rightarrow> char \<Rightarrow> bool" where
  "byte_in lo hi c = (lo \<le> of_char c \<and> (of_char c :: nat) \<le> hi)"

fun utf8_valid :: "bytes \<Rightarrow> bool" where
  "utf8_valid [] = True"
| "utf8_valid (a # bs) =
     (if byte_in 0 127 a then utf8_valid bs
      else if byte_in 194 223 a then
        (case bs of
           b # r \<Rightarrow> byte_in 128 191 b \<and> utf8_valid r
         | _ \<Rightarrow> False)
      else if byte_in 224 239 a then
        (case bs of
           b # c # r \<Rightarrow>
             byte_in (if of_char a = (224::nat) then 160 else 128)
                     (if of_char a = (237::nat) then 159 else 191) b
             \<and> byte_in 128 191 c \<and> utf8_valid r
         | _ \<Rightarrow> False)
      else if byte_in 240 244 a then
        (case bs of
           b # c # d # r \<Rightarrow>
             byte_in (if of_char a = (240::nat) then 144 else 128)
                     (if of_char a = (244::nat) then 143 else 191) b
             \<and> byte_in 128 191 c \<and> byte_in 128 191 d \<and> utf8_valid r
         | _ \<Rightarrow> False)
      else False)"

definition encode :: "string \<Rightarrow> bytes" where
  "encode s = s"

definition decode :: "bytes \<Rightarrow> error + string" where
  "decode b = (if utf8_valid b then Inr b else Inl UnicodeDecodeError)"

subsection \<open>Integers as text\<close>

definition is_digit :: "char \<Rightarrow> bool" where
  "is_digit c = byte_in 48 57 c"

definition digit_val :: "char \<Rightarrow> nat" where
  "digit_val c = of_char c - 48"

definition digit_char :: "nat \<Rightarrow> char" where
  "digit_char d = char_of (48 + d)"

definition nat_of_digits :: "string \<Rightarrow> nat" where
  "nat_of_digits ds = foldl (\<lambda>n c. 10 * n + digit_val c) 0 ds"

text \<open>\<^verbatim>\<open>str(n)\<close> of a Python int, as used by the f-strings that build Redis keys.\<close>

function show_nat :: "nat \<Rightarrow> string" where
  "show_nat n = (if n < 10 then [digit_char n] else show_nat (n div 10) @ [digit_char (n mod 10)])"
  by pat_completeness auto
termination
  by (relation "measure id") auto

declare show_nat.simps [simp del]

definition show_int :: "int \<Rightarrow> string" where
  "show_int i = (if i < 0 then CHR ''-'' # show_nat (nat (- i)) else show_nat (nat i))"

text \<open>
  \<^verbatim>\<open>int(b)\<close> of Python bytes in base 10: surrounding ASCII whitespace is stripped, one sign
  is allowed, and digits may be grouped by single underscores.
\<close>

definition is_space :: "char \<Rightarrow> bool" where
  "is_space c = (c \<in> set [CHR '' '', CHR 0x09, CHR 0x0A, CHR 0x0B, CHR 0x0C, CHR 0x0D])"

definition strip :: "string \<Rightarrow> string" where
  "strip s = rev (dropWhile is_space (rev (dropWhile is_space s)))"

fun py_digits :: "string \<Rightarrow> string option" where
  "py_digits [] = None"
| "py_digits [c] = (if is_digit c then Some [c] else None)"
| "py_digits (c # d # r) =
     (if is_digit c then
        (if d = CHR ''_'' then map_option (Cons c) (py_digits r)
         else map_option (Cons c) (py_digits (d # r)))
      else None)"

definition py_int :: "bytes \<Rightarrow> error + int" where
  "py_int b =
     (case strip b of
        [] \<Rightarrow> Inl ValueError
      | c # r \<Rightarrow>
          (if c = CHR ''-'' then
             (case py_digits r of None \<Rightarrow> Inl ValueError
              | Some ds \<Rightarrow> Inr (- int (nat_of_digits ds)))
           else if c = CHR ''+'' then
             (case py_digits r of None \<Rightarrow> Inl ValueError
              | Some ds \<Rightarrow> Inr (int (nat_of_digits ds)))
           else
             (case py_digits (c # r) of None \<Rightarrow> Inl ValueError
              | Some ds \<Rightarrow> Inr (int (nat_of_digits ds)))))"

text \<open>
  The integer a Redis string holds, as \<^verbatim>\<open>INCR\<close> reads it: canonical decimal only (no
  sign \<open>+\<close>, no leading zero, no spaces) and within signed 64 bits.
\<close>

definition in_int64 :: "int \<Rightarrow> bool" where
  "in_int64 i = (- (2 ^ 63) \<le> i \<and> i < 2 ^ 63)"

definition redis_int :: "bytes \<Rightarrow> int option" where
  "redis_int s =
     (case s of
        [] \<Rightarrow> None
      | c # r \<Rightarrow>
          (if s = ''0'' then Some 0
           else if c = CHR ''-'' then
             (case r of
                [] \<Rightarrow> None
              | d # _ \<Rightarrow>
                  (if d \<noteq> CHR ''0'' \<and> list_all is_digit r \<and> in_int64 (- int (nat_of_digits r))
                   then Some (- int (nat_of_digits r)) else None))
           else if c \<noteq> CHR ''0'' \<and> list_all is_digit s \<and> in_int64 (int (nat_of_digits s))
           then Some (int (nat_of_digits s)) else None))"

subsection \<open>The world outside the program\<close>

text \<open>
  A Redis value is a string or a hash. The database is an association list from keys to
  values; a missing key and an empty hash are the same thing to \<^verbatim>\<open>HGETALL\<close>.
\<close>

datatype rval = RStr bytes | RHash "(bytes \<times> bytes) list"

datatype stat_val = Bytes bytes | IntVal int

datatype reply =
    Text string
  | File bytes
  | Statistics nat stat_val stat_val   \<comment> \<open>total users, emails sent, active today\<close>

datatype part =
    TextPlain string            \<comment> \<open>MIMEText(body, 'plain', 'utf-8')\<close>
  | Attachment string bytes     \<comment> \<open>octet-stream part, base64 payload, Content-Disposition filename\<close>

record mail =
  subject :: string
  sender :: "string option"
  recipient :: string
  parts :: "part list"

record attachment =
  filename :: string
  content :: bytes

text \<open>Everything the program does to the outside is appended to one trace.\<close>

datatype event =
    Redis string bytes          \<comment> \<open>command and key (or pattern) sent to the store\<close>
  | OpenFile string
  | Respond reply
  | SmtpConnect string int
  | SmtpStartTLS
  | SmtpLogin "string option" "string option"
  | SmtpSend mail
  | SmtpQuit

datatype level = INFO | ERROR | CRITICAL

datatype log_msg =
    EncryptionSetupFailed error
  | DecryptionFailed error
  | ConfigError int error
  | StatTrackingError error
  | LogsError error
  | UsersStatsError error
  | AdminDownloadedLogs int

text \<open>
  \<open>redis_faults\<close> and \<open>chat_faults\<close> are schedules chosen by the environment: each Redis
  command (each \<^verbatim>\<open>event.respond\<close>) takes the next flag, and \<open>True\<close> means the connection
  fails for that call. An exhausted schedule means no further failure. \<open>smtp_fault\<close> says at
  which step, if any, the mail server session fails.
\<close>

record world =
  db :: "(bytes \<times> rval) list"
  redis_faults :: "bool list"
  env_encryption_key :: "string option"
  log_file :: "bytes option"
  chat_faults :: "bool list"
  smtp_fault :: "smtp_stage option"
  io :: "event list"
  log :: "(level \<times> log_msg) list"

definition emit :: "event \<Rightarrow> world \<Rightarrow> world" where
  "emit e w = w\<lparr>io := io w @ [e]\<rparr>"

definition logger :: "level \<Rightarrow> log_msg \<Rightarrow> world \<Rightarrow> world" where
  "logger l m w = w\<lparr>log := log w @ [(l, m)]\<rparr>"

text \<open>Python truthiness of an optional byte string: \<^verbatim>\<open>None\<close> and \<^verbatim>\<open>b''\<close> are false.\<close>

definition nonempty :: "bytes option \<Rightarrow> bytes option" where
  "nonempty v = (case v of Some (c # cs) \<Rightarrow> Some (c # cs) | _ \<Rightarrow> None)"

subsection \<open>Redis commands\<close>

definition redis_conn :: "string \<Rightarrow> bytes \<Rightarrow> world \<Rightarrow> bool \<times> world" where
  "redis_conn cmd k w =
     (case redis_faults w of
        [] \<Rightarrow> (True, emit (Redis cmd k) w)
      | f # fs \<Rightarrow> (\<not> f, emit (Redis cmd k) (w\<lparr>redis_faults := fs\<rparr>)))"

text \<open>The store answers the next command.\<close>

definition store_up :: "world \<Rightarrow> bool" where
  "store_up w = (case redis_faults w of [] \<Rightarrow> True | f # fs \<Rightarrow> \<not> f)"

definition redis_get :: "bytes \<Rightarrow> world \<Rightarrow> (error + bytes option) \<times> world" where
  "redis_get k w =
     (case redis_conn ''GET'' k w of
        (False, w1) \<Rightarrow> (Inl ConnectionError, w1)
      | (True, w1) \<Rightarrow>
          (case map_of (db w1) k of
             None \<Rightarrow> (Inr None, w1)
           | Some (RStr v) \<Rightarrow> (Inr (Some v), w1)
           | Some (RHash h) \<Rightarrow> (Inl ResponseError, w1)))"

definition redis_set :: "bytes \<Rightarrow> bytes \<Rightarrow> world \<Rightarrow> (error + unit) \<times> world" where
  "redis_set k v w =
     (case redis_conn ''SET'' k w of
        (False, w1) \<Rightarrow> (Inl ConnectionError, w1)
      | (True, w1) \<Rightarrow> (Inr (), w1\<lparr>db := AList.update k (RStr v) (db w1)\<rparr>))"

definition redis_delete :: "bytes \<Rightarrow> world \<Rightarrow> (error + unit) \<times> world" where
  "redis_delete k w =
     (case redis_conn ''DEL'' k w of
        (False, w1) \<Rightarrow> (Inl ConnectionError, w1)
      | (True, w1) \<Rightarrow> (Inr (), w1\<lparr>db := AList.delete k (db w1)\<rparr>))"

definition redis_hgetall :: "bytes \<Rightarrow> world \<Rightarrow> (error + (bytes \<times> bytes) list) \<times> world" where
  "redis_hgetall k w =
     (case redis_conn ''HGETALL'' k w of
        (False, w1) \<Rightarrow> (Inl ConnectionError, w1)
      | (True, w1) \<Rightarrow>
          (case map_of (db w1) k of
             None \<Rightarrow> (Inr [], w1)
           | Some (RHash h) \<Rightarrow> (Inr h, w1)
           | Some (RStr v) \<Rightarrow> (Inl ResponseError, w1)))"



text \<open>The integer that \<^verbatim>\<open>INCR\<close> finds under a key; a missing key counts as 0.\<close>

definition redis_counter :: "rval option \<Rightarrow> int option" where
  "redis_counter v =
     (case v of None \<Rightarrow> Some 0 | Some (RStr b) \<Rightarrow> redis_int b | Some (RHash h) \<Rightarrow> None)"

definition redis_incr :: "bytes \<Rightarrow> world \<Rightarrow> (error + int) \<times> world" where
  "redis_incr k w =
     (case redis_conn ''INCR'' k w of
        (False, w1) \<Rightarrow> (Inl ConnectionError, w1)
      | (True, w1) \<Rightarrow>
          (case redis_counter (map_of (db w1) k) of
             None \<Rightarrow> (Inl ResponseError, w1)
           | Some n \<Rightarrow>
               (if in_int64 (n + 1)
                then (Inr (n + 1), w1\<lparr>db := AList.update k (RStr (show_int (n + 1))) (db w1)\<rparr>)
                else (Inl ResponseError, w1))))"

text \<open>Glob matching as far as the program's one pattern needs it: \<open>*\<close> matches any run.\<close>

fun glob :: "string \<Rightarrow> string \<Rightarrow> bool" where
  "glob [] s = (s = [])"
| "glob (p # ps) [] = (p = CHR ''*'' \<and> glob ps [])"
| "glob (p # ps) (c # cs) =
     (if p = CHR ''*'' then glob ps (c # cs) \<or> glob (p # ps) cs
      else p = c \<and> glob ps cs)"

definition redis_keys :: "string \<Rightarrow> world \<Rightarrow> (error + bytes list) \<times> world" where
  "redis_keys pat w =
     (case redis_conn ''KEYS'' pat w of
        (False, w1) \<Rightarrow> (Inl ConnectionError, w1)
      | (True, w1) \<Rightarrow> (Inr (filter (glob pat) (map fst (db w1))), w1))"

subsection \<open>The Fernet library\<close>

text \<open>
  \<^verbatim>\<open>cryptography.fernet\<close> is not part of the repository, so its three operations are a
  parameter of the model: \<open>key_of\<close> reads the secret out of a key string (\<open>None\<close> where
  \<^verbatim>\<open>Fernet(key)\<close> raises \<^verbatim>\<open>ValueError\<close>), \<open>enc\<close> builds a token from a secret, the random
  initialisation vector with the time stamp, and a plaintext, and \<open>dec\<close> opens a token
  (\<open>None\<close> where \<^verbatim>\<open>decrypt\<close> raises \<^verbatim>\<open>InvalidToken\<close>). Tokens are URL-safe base64 text, so
  \<^verbatim>\<open>.decode()\<close> of a token is the identity.
\<close>

record fernet_lib =
  key_of :: "bytes \<Rightarrow> bytes option"
  enc :: "bytes \<Rightarrow> bytes \<Rightarrow> bytes \<Rightarrow> bytes"
  dec :: "bytes \<Rightarrow> bytes \<Rightarrow> bytes option"

datatype fernet = Fernet bytes

definition new_fernet :: "fernet_lib \<Rightarrow> bytes \<Rightarrow> error + fernet" where
  "new_fernet L k = (case key_of L k of None \<Rightarrow> Inl ValueError | Some s \<Rightarrow> Inr (Fernet s))"


fun fernet_decrypt :: "fernet_lib \<Rightarrow> fernet \<Rightarrow> bytes \<Rightarrow> error + bytes" where
  "fernet_decrypt L (Fernet s) t = (case dec L s t of None \<Rightarrow> Inl InvalidToken | Some p \<Rightarrow> Inr p)"


text \<open>
  A small library that keeps the contract, used to run the program on examples: a key is
  any four bytes, a token is the secret followed by the plaintext.
\<close>

definition demo_fernet :: fernet_lib where
  "demo_fernet =
     \<lparr>key_of = (\<lambda>k. if length k = 4 then Some k else None),
      enc = (\<lambda>s iv p. s @ p),
      dec = (\<lambda>s t. if length s = 4 \<and> take 4 t = s then Some (drop 4 t) else None)\<rparr>"

subsection \<open>Key set-up\<close>

text \<open>
  \<^verbatim>\<open>setup_encryption\<close>; \<open>new_key\<close> is what \<^verbatim>\<open>Fernet.generate_key()\<close> returns if it is called.
  The function returns the \<^verbatim>\<open>Fernet\<close> object, which the program keeps in the global
  \<^verbatim>\<open>cipher_suite\<close>; below it is the parameter \<open>cs\<close>.
\<close>

definition setup_encryption_try :: "fernet_lib \<Rightarrow> bytes \<Rightarrow> world \<Rightarrow> (error + fernet) \<times> world" where
  "setup_encryption_try L new_key w =
     (case redis_get ''fernet_key'' w of
        (Inl e, w1) \<Rightarrow> (Inl e, w1)
      | (Inr key, w1) \<Rightarrow>
          (case nonempty key of
             Some k \<Rightarrow> (new_fernet L k, w1)
           | None \<Rightarrow>
               (case nonempty (env_encryption_key w1) of
                  Some k \<Rightarrow> (new_fernet L (encode k), w1)
                | None \<Rightarrow>
                    (case redis_set ''fernet_key'' new_key w1 of
                       (Inl e, w2) \<Rightarrow> (Inl e, w2)
                     | (Inr u, w2) \<Rightarrow> (new_fernet L new_key, w2)))))"

definition setup_encryption :: "fernet_lib \<Rightarrow> bytes \<Rightarrow> world \<Rightarrow> (error + fernet) \<times> world" where
  "setup_encryption L new_key w =
     (case setup_encryption_try L new_key w of
        (Inl e, w1) \<Rightarrow> (Inl e, logger CRITICAL (EncryptionSetupFailed e) w1)
      | (Inr cs, w1) \<Rightarrow> (Inr cs, w1))"

subsection \<open>Redis keys\<close>

definition user_key :: "int \<Rightarrow> bytes" where
  "user_key user_id = ''user:'' @ show_int user_id @ '':email_config''"

definition temp_data_key :: "int \<Rightarrow> bytes" where
  "temp_data_key user_id = ''temp:'' @ show_int user_id"

definition stats_key :: bytes where
  "stats_key = ''bot:stats''"

subsection \<open>Encryption functions\<close>


definition decrypt_data :: "fernet_lib \<Rightarrow> fernet \<Rightarrow> bytes \<Rightarrow> world \<Rightarrow> (error + string) \<times> world" where
  "decrypt_data L cs encrypted_data w =
     (case fernet_decrypt L cs encrypted_data of
        Inl e \<Rightarrow> (Inl e, logger ERROR (DecryptionFailed e) w)
      | Inr p \<Rightarrow> (decode p, w))"

subsection \<open>Chat events and error reporting\<close>

record chat_event =
  sender_id :: int

definition respond :: "reply \<Rightarrow> world \<Rightarrow> (error + unit) \<times> world" where
  "respond r w =
     (case chat_faults w of
        [] \<Rightarrow> (Inr (), emit (Respond r) w)
      | f # fs \<Rightarrow>
          (if f then (Inl ChatError, emit (Respond r) (w\<lparr>chat_faults := fs\<rparr>))
           else (Inr (), emit (Respond r) (w\<lparr>chat_faults := fs\<rparr>))))"

definition cross_mark :: string where
  "cross_mark = [CHR 0xE2, CHR 0x9D, CHR 0x8C]"

definition no_entry :: string where
  "no_entry = [CHR 0xE2, CHR 0x9B, CHR 0x94]"

definition handle_error ::
  "chat_event option \<Rightarrow> log_msg \<Rightarrow> string option \<Rightarrow> world \<Rightarrow> (error + unit) \<times> world" where
  "handle_error event error_msg user_msg w =
     (let w1 = logger ERROR error_msg w in
      (case (nonempty user_msg, event) of
         (Some m, Some ev) \<Rightarrow> respond (Text (cross_mark @ '' '' @ m)) w1
       | _ \<Rightarrow> (Inr (), w1)))"

subsection \<open>Config store\<close>

record config =
  smtp_server :: string
  smtp_port :: int
  imap_server :: string
  imap_port :: int
  email :: "string option"
  password :: "string option"
  mode :: string

definition text_field :: "(bytes \<times> bytes) list \<Rightarrow> bytes \<Rightarrow> error + string" where
  \<comment> \<open>\<^verbatim>\<open>config.get(f, b'').decode()\<close>\<close>
  "text_field c f = decode (case map_of c f of None \<Rightarrow> [] | Some v \<Rightarrow> v)"

definition int_field :: "(bytes \<times> bytes) list \<Rightarrow> bytes \<Rightarrow> error + int" where
  \<comment> \<open>\<^verbatim>\<open>int(config.get(f, 0))\<close>\<close>
  "int_field c f = (case map_of c f of None \<Rightarrow> Inr 0 | Some v \<Rightarrow> py_int v)"

definition secret_field ::
  "fernet_lib \<Rightarrow> fernet \<Rightarrow> (bytes \<times> bytes) list \<Rightarrow> bytes \<Rightarrow> world \<Rightarrow> (error + string option) \<times> world" where
  \<comment> \<open>\<^verbatim>\<open>decrypt_data(config.get(f, b'')) if config.get(f) else None\<close>\<close>
  "secret_field L cs c f w =
     (case nonempty (map_of c f) of
        None \<Rightarrow> (Inr None, w)
      | Some t \<Rightarrow>
          (case decrypt_data L cs t w of
             (Inl e, w1) \<Rightarrow> (Inl e, w1)
           | (Inr p, w1) \<Rightarrow> (Inr (Some p), w1)))"

text \<open>The dictionary display of \<^verbatim>\<open>get_user_config\<close>, its entries evaluated in order.\<close>

definition config_of_hash ::
  "fernet_lib \<Rightarrow> fernet \<Rightarrow> (bytes \<times> bytes) list \<Rightarrow> world \<Rightarrow> (error + config) \<times> world" where
  "config_of_hash L cs c w =
     (case text_field c ''smtp_server'' of Inl e \<Rightarrow> (Inl e, w) | Inr ss \<Rightarrow>
      (case int_field c ''smtp_port'' of Inl e \<Rightarrow> (Inl e, w) | Inr sp \<Rightarrow>
      (case text_field c ''imap_server'' of Inl e \<Rightarrow> (Inl e, w) | Inr is \<Rightarrow>
      (case int_field c ''imap_port'' of Inl e \<Rightarrow> (Inl e, w) | Inr ip \<Rightarrow>
      (case secret_field L cs c ''email'' w of (Inl e, w1) \<Rightarrow> (Inl e, w1) | (Inr em, w1) \<Rightarrow>
      (case secret_field L cs c ''password'' w1 of (Inl e, w2) \<Rightarrow> (Inl e, w2) | (Inr pw, w2) \<Rightarrow>
      (case text_field c ''mode'' of Inl e \<Rightarrow> (Inl e, w2) | Inr m \<Rightarrow>
        (Inr \<lparr>smtp_server = ss, smtp_port = sp, imap_server = is, imap_port = ip,
              email = em, password = pw, mode = m\<rparr>, w2))))))))"

definition get_user_config_try ::
  "fernet_lib \<Rightarrow> fernet \<Rightarrow> int \<Rightarrow> world \<Rightarrow> (error + config option) \<times> world" where
  "get_user_config_try L cs user_id w =
     (case redis_hgetall (user_key user_id) w of
        (Inl e, w1) \<Rightarrow> (Inl e, w1)
      | (Inr c, w1) \<Rightarrow>
          (if c = [] then (Inr None, w1)
           else
             (case config_of_hash L cs c w1 of
                (Inl e, w2) \<Rightarrow> (Inl e, w2)
              | (Inr cfg, w2) \<Rightarrow> (Inr (Some cfg), w2))))"

definition get_user_config ::
  "fernet_lib \<Rightarrow> fernet \<Rightarrow> int \<Rightarrow> world \<Rightarrow> (error + config option) \<times> world" where
  "get_user_config L cs user_id w =
     (case get_user_config_try L cs user_id w of
        (Inl e, w1) \<Rightarrow>
          (case handle_error None (ConfigError user_id e) None w1 of
             (Inl e', w2) \<Rightarrow> (Inl e', w2)
           | (Inr u, w2) \<Rightarrow> (Inr None, w2))
      | (Inr r, w1) \<Rightarrow> (Inr r, w1))"

subsection \<open>Pending set-up data\<close>



definition delete_temp_data :: "int \<Rightarrow> world \<Rightarrow> (error + unit) \<times> world" where
  "delete_temp_data user_id w = redis_delete (temp_data_key user_id) w"

subsection \<open>Statistics\<close>

definition stat_key :: "string \<Rightarrow> bytes" where
  "stat_key metric = stats_key @ '':'' @ metric"

definition track_stat :: "string \<Rightarrow> world \<Rightarrow> (error + unit) \<times> world" where
  "track_stat metric w =
     (case redis_incr (stat_key metric) w of
        (Inl e, w1) \<Rightarrow> (Inr (), logger ERROR (StatTrackingError e) w1)
      | (Inr n, w1) \<Rightarrow> (Inr (), w1))"

text \<open>\<^verbatim>\<open>redis_client.get(key) or 0\<close>, the read that \<^verbatim>\<open>users_handler\<close> does of a counter.\<close>

definition read_stat :: "string \<Rightarrow> world \<Rightarrow> (error + stat_val) \<times> world" where
  "read_stat metric w =
     (case redis_get (stat_key metric) w of
        (Inl e, w1) \<Rightarrow> (Inl e, w1)
      | (Inr v, w1) \<Rightarrow>
          (case nonempty v of None \<Rightarrow> (Inr (IntVal 0), w1) | Some b \<Rightarrow> (Inr (Bytes b), w1)))"

subsection \<open>Email functions\<close>

definition MAX_ATTACHMENT_SIZE :: nat where
  "MAX_ATTACHMENT_SIZE = 20 * 1024 * 1024"

definition LOG_FILE :: string where
  "LOG_FILE = ''email_bot.log''"

text \<open>
  The \<^verbatim>\<open>with smtplib.SMTP(...)\<close> block: connect, STARTTLS, login, send; leaving the block
  closes an open session with QUIT, also when a step raised.
\<close>

definition smtp_session ::
  "string \<Rightarrow> int \<Rightarrow> string option \<Rightarrow> string option \<Rightarrow> mail \<Rightarrow> world \<Rightarrow> (error + unit) \<times> world" where
  "smtp_session host port user pw msg w =
     (let w1 = emit (SmtpConnect host port) w in
      if smtp_fault w = Some AtConnect then (Inl (SMTPException AtConnect), w1)
      else
        (let w2 = emit SmtpStartTLS w1 in
         if smtp_fault w = Some AtStartTLS then (Inl (SMTPException AtStartTLS), emit SmtpQuit w2)
         else
           (let w3 = emit (SmtpLogin user pw) w2 in
            if smtp_fault w = Some AtLogin then (Inl (SMTPException AtLogin), emit SmtpQuit w3)
            else
              (let w4 = emit (SmtpSend msg) w3 in
               if smtp_fault w = Some AtSend then (Inl (SMTPException AtSend), emit SmtpQuit w4)
               else (Inr (), emit SmtpQuit w4)))))"

definition attach_files :: "attachment list option \<Rightarrow> part list" where
  "attach_files attachments =
     (case attachments of
        None \<Rightarrow> []
      | Some fs \<Rightarrow> map (\<lambda>file_info. Attachment (filename file_info) (content file_info)) fs)"

definition send_email ::
  "fernet_lib \<Rightarrow> fernet \<Rightarrow> int \<Rightarrow> string \<Rightarrow> string \<Rightarrow> string \<Rightarrow> attachment list option
     \<Rightarrow> world \<Rightarrow> (error + unit) \<times> world" where
  "send_email L cs user_id to subj body attachments w =
     (case get_user_config L cs user_id w of
        (Inl e, w1) \<Rightarrow> (Inl e, w1)
      | (Inr None, w1) \<Rightarrow> (Inl SMTPNotConfigured, w1)
      | (Inr (Some cfg), w1) \<Rightarrow>
          (if smtp_server cfg = [] then (Inl SMTPNotConfigured, w1)
           else
             (let msg = \<lparr>subject = subj, sender = email cfg, recipient = to,
                         parts = TextPlain body # attach_files attachments\<rparr>
              in (case smtp_session (smtp_server cfg) (smtp_port cfg) (email cfg) (password cfg) msg w1 of
                    (Inl e, w2) \<Rightarrow> (Inl e, w2)
                  | (Inr u, w2) \<Rightarrow> track_stat ''emails_sent'' w2))))"

text \<open>The size that the ceiling \<open>MAX_ATTACHMENT_SIZE\<close> is about: the bytes of all attachments.\<close>

definition attachments_total :: "attachment list option \<Rightarrow> nat" where
  "attachments_total attachments =
     (case attachments of None \<Rightarrow> 0 | Some fs \<Rightarrow> sum_list (map (\<lambda>f. length (content f)) fs))"

subsection \<open>Admin commands\<close>

text \<open>\<open>admins\<close> is the list \<^verbatim>\<open>ADMIN_IDS\<close>, read from the environment once at start-up.\<close>

definition logs_handler_try :: "int list \<Rightarrow> chat_event \<Rightarrow> world \<Rightarrow> (error + unit) \<times> world" where
  "logs_handler_try admins event w =
     (if sender_id event \<notin> set admins then respond (Text (no_entry @ '' Unauthorized'')) w
      else
        (let w1 = emit (OpenFile LOG_FILE) w in
         (case log_file w1 of
            None \<Rightarrow> (Inl FileNotFoundError, w1)
          | Some f \<Rightarrow>
              (case respond (File f) w1 of
                 (Inl e, w2) \<Rightarrow> (Inl e, w2)
               | (Inr u, w2) \<Rightarrow> (Inr (), logger INFO (AdminDownloadedLogs (sender_id event)) w2)))))"

definition logs_handler :: "int list \<Rightarrow> chat_event \<Rightarrow> world \<Rightarrow> (error + unit) \<times> world" where
  "logs_handler admins event w =
     (case logs_handler_try admins event w of
        (Inl e, w1) \<Rightarrow> handle_error (Some event) (LogsError e) None w1
      | (Inr u, w1) \<Rightarrow> (Inr (), w1))"

definition users_handler_try :: "int list \<Rightarrow> chat_event \<Rightarrow> world \<Rightarrow> (error + unit) \<times> world" where
  "users_handler_try admins event w =
     (if sender_id event \<notin> set admins then respond (Text (no_entry @ '' Unauthorized'')) w
      else
        (case redis_keys ''user:*:email_config'' w of
           (Inl e, w1) \<Rightarrow> (Inl e, w1)
         | (Inr users, w1) \<Rightarrow>
             (case read_stat ''users_active'' w1 of
                (Inl e, w2) \<Rightarrow> (Inl e, w2)
              | (Inr active_today, w2) \<Rightarrow>
                  (case read_stat ''emails_sent'' w2 of
                     (Inl e, w3) \<Rightarrow> (Inl e, w3)
                   | (Inr emails_sent, w3) \<Rightarrow>
                       respond (Statistics (length users) emails_sent active_today) w3))))"

definition users_handler :: "int list \<Rightarrow> chat_event \<Rightarrow> world \<Rightarrow> (error + unit) \<times> world" where
  "users_handler admins event w =
     (case users_handler_try admins event w of
        (Inl e, w1) \<Rightarrow> handle_error (Some event) (UsersStatsError e) None w1
      | (Inr u, w1) \<Rightarrow> (Inr (), w1))"

subsection \<open>Conversation state machine\<close>










definition cancel_configure :: "int \<Rightarrow> world \<Rightarrow> (error + unit) \<times> world" where
  \<comment> \<open>Modelled from the spec: explicit cancellation discards the PendingSetup (section 4.3).\<close>
  "cancel_configure user_id w = delete_temp_data user_id w"








subsection \<open>Example worlds and inputs\<close>

definition w0 :: world where
  "w0 = \<lparr>db = [], redis_faults = [], env_encryption_key = None, log_file = None,
         chat_faults = [], smtp_fault = None, io = [], log = []\<rparr>"

text \<open>
  User 42 as scenario B leaves it, with the credentials sealed by \<open>demo_fernet\<close> under the
  key \<open>key1\<close>.
\<close>

definition cfg42 :: "(bytes \<times> bytes) list" where
  "cfg42 = [(''smtp_server'', ''smtp.example.com''), (''smtp_port'', ''587''),
            (''imap_server'', ''imap.example.com''), (''imap_port'', ''993''),
            (''email'', ''key1a@example.com''), (''password'', ''key1secret''),
            (''mode'', ''configured'')]"

definition w42 :: world where
  "w42 = w0\<lparr>db := [(''user:42:email_config'', RHash cfg42)]\<rparr>"

text \<open>The same record with the completeness marker not set.\<close>

definition w42_unset :: world where
  "w42_unset = w0\<lparr>db := [(''user:42:email_config'', RHash (AList.update ''mode'' ''unset'' cfg42))]\<rparr>"

text \<open>The same record with the email sealed under another key, \<open>key2\<close>.\<close>

definition w42_foreign :: world where
  "w42_foreign =
     w0\<lparr>db := [(''user:42:email_config'', RHash (AList.update ''email'' ''key2a@example.com'' cfg42))]\<rparr>"

text \<open>One attachment of 20 MiB and one byte.\<close>

definition big_attachment :: attachment where
  "big_attachment = \<lparr>filename = ''big.bin'', content = replicate (MAX_ATTACHMENT_SIZE + 1) (CHR 0x00)\<rparr>"


text \<open>A first start with the key supplied by the environment and nothing in the store.\<close>

definition w_env :: world where
  "w_env = w0\<lparr>env_encryption_key := Some ''key1''\<rparr>"


section \<open>Properties\<close>

subsection \<open>What each operation leaves alone\<close>

lemma redis_conn_db [simp]: "db (snd (redis_conn c k w)) = db w"
  by (simp add: redis_conn_def emit_def split: list.splits)

lemma redis_conn_io [simp]: "io (snd (redis_conn c k w)) = io w @ [Redis c k]"
  by (simp add: redis_conn_def emit_def split: list.splits)

lemma redis_conn_log [simp]: "log (snd (redis_conn c k w)) = log w"
  by (simp add: redis_conn_def emit_def split: list.splits)

lemma redis_conn_up: "fst (redis_conn c k w) = store_up w"
  by (simp add: redis_conn_def store_up_def split: list.splits)

lemma respond_io [simp]: "io (snd (respond r w)) = io w @ [Respond r]"
  by (simp add: respond_def emit_def split: list.splits)

lemma respond_db [simp]: "db (snd (respond r w)) = db w"
  by (simp add: respond_def emit_def split: list.splits)

lemma respond_log [simp]: "log (snd (respond r w)) = log w"
  by (simp add: respond_def emit_def split: list.splits)

lemma handle_error_quiet:
  "handle_error ev m None w = (Inr (), logger ERROR m w)"
  by (simp add: handle_error_def nonempty_def)

lemma logger_io [simp]: "io (logger l m w) = io w"
  by (simp add: logger_def)

lemma logger_db [simp]: "db (logger l m w) = db w"
  by (simp add: logger_def)

lemma logger_log [simp]: "log (logger l m w) = log w @ [(l, m)]"
  by (simp add: logger_def)

lemma logger_faults [simp]: "redis_faults (logger l m w) = redis_faults w"
  by (simp add: logger_def)

lemma logger_smtp [simp]: "smtp_fault (logger l m w) = smtp_fault w"
  by (simp add: logger_def)

lemma decrypt_data_db [simp]: "db (snd (decrypt_data L cs t w)) = db w"
  by (simp add: decrypt_data_def split: sum.splits)

lemma decrypt_data_io [simp]: "io (snd (decrypt_data L cs t w)) = io w"
  by (simp add: decrypt_data_def split: sum.splits)

lemma secret_field_db [simp]: "db (snd (secret_field L cs c f w)) = db w"
  by (simp add: secret_field_def case_prod_beta split: option.splits sum.splits)

lemma secret_field_io [simp]: "io (snd (secret_field L cs c f w)) = io w"
  by (simp add: secret_field_def case_prod_beta split: option.splits sum.splits)

lemma config_of_hash_db [simp]: "db (snd (config_of_hash L cs c w)) = db w"
  by (simp add: config_of_hash_def case_prod_beta split: sum.splits)

lemma config_of_hash_io [simp]: "io (snd (config_of_hash L cs c w)) = io w"
  by (simp add: config_of_hash_def case_prod_beta split: sum.splits)

lemma redis_hgetall_db [simp]: "db (snd (redis_hgetall k w)) = db w"
  by (simp add: redis_hgetall_def case_prod_beta split: bool.splits option.splits rval.splits)

lemma redis_hgetall_io [simp]: "io (snd (redis_hgetall k w)) = io w @ [Redis ''HGETALL'' k]"
  by (simp add: redis_hgetall_def case_prod_beta split: bool.splits option.splits rval.splits)

lemma get_user_config_try_db [simp]: "db (snd (get_user_config_try L cs u w)) = db w"
  by (simp add: get_user_config_try_def case_prod_beta split: sum.splits)

lemma get_user_config_try_io [simp]:
  "io (snd (get_user_config_try L cs u w)) = io w @ [Redis ''HGETALL'' (user_key u)]"
  by (simp add: get_user_config_try_def case_prod_beta split: sum.splits)

lemma get_user_config_db [simp]: "db (snd (get_user_config L cs u w)) = db w"
  by (simp add: get_user_config_def handle_error_quiet case_prod_beta split: sum.splits)

lemma get_user_config_io [simp]:
  "io (snd (get_user_config L cs u w)) = io w @ [Redis ''HGETALL'' (user_key u)]"
  by (simp add: get_user_config_def handle_error_quiet case_prod_beta split: sum.splits)

lemma get_user_config_total: "\<exists>r. fst (get_user_config L cs u w) = Inr r"
  by (simp add: get_user_config_def handle_error_quiet case_prod_beta split: sum.splits)

lemma smtp_session_db [simp]: "db (snd (smtp_session h p u pw m w)) = db w"
  by (simp add: smtp_session_def Let_def emit_def)

lemma track_stat_returns: "fst (track_stat m w) = Inr ()"
  by (simp add: track_stat_def case_prod_beta split: sum.splits)

lemma send_email_failure_keeps_db:
  assumes "fst (send_email L cs u to subj body atts w) = Inl e"
  shows "db (snd (send_email L cs u to subj body atts w)) = db w"
proof -
  obtain r w1 where g: "get_user_config L cs u w = (Inr r, w1)"
    using get_user_config_total [of L cs u w] by (metis prod.collapse)
  have d1: "db w1 = db w"
    using get_user_config_db [of L cs u w] g by simp
  show ?thesis
  proof (cases r)
    case None
    then show ?thesis using g d1 by (simp add: send_email_def)
  next
    case (Some cfg)
    show ?thesis
    proof (cases "smtp_server cfg = []")
      case True
      then show ?thesis using g d1 Some by (simp add: send_email_def)
    next
      case False
      let ?msg = "\<lparr>subject = subj, sender = email cfg, recipient = to,
                     parts = TextPlain body # attach_files atts\<rparr>"
      obtain sr w2 where m: "smtp_session (smtp_server cfg) (smtp_port cfg) (email cfg)
          (password cfg) ?msg w1 = (sr, w2)" by fastforce
      have d2: "db w2 = db w1"
        using smtp_session_db [of "smtp_server cfg" "smtp_port cfg" "email cfg" "password cfg" ?msg w1] m
        by simp
      show ?thesis
      proof (cases sr)
        case (Inl e')
        then show ?thesis using g d1 d2 Some False m by (simp add: send_email_def)
      next
        case (Inr u')
        then have "send_email L cs u to subj body atts w = track_stat ''emails_sent'' w2"
          using g Some False m by (simp add: send_email_def)
        then show ?thesis using assms track_stat_returns [of "''emails_sent''" w2] by simp
      qed
    qed
  qed
qed

subsection \<open>Decimal text\<close>

lemma digit_val_digit_char: "d < 10 \<Longrightarrow> digit_val (digit_char d) = d"
  by (simp add: digit_val_def digit_char_def)

lemma is_digit_digit_char: "d < 10 \<Longrightarrow> is_digit (digit_char d)"
  by (simp add: is_digit_def byte_in_def digit_char_def)

lemma digit_char_eq_zero: "d < 10 \<Longrightarrow> (digit_char d = CHR ''0'') = (d = 0)"
proof -
  assume d: "d < 10"
  then have a: "of_char (digit_char d) = (48 + d :: nat)" by (simp add: digit_char_def)
  have b: "of_char (CHR ''0'') = (48 :: nat)" by simp
  show ?thesis
  proof
    assume "digit_char d = CHR ''0''"
    then have "(of_char (digit_char d) :: nat) = of_char (CHR ''0'')" by (rule arg_cong)
    then show "d = 0" unfolding a b by arith
  next
    assume "d = 0"
    then have "(of_char (digit_char d) :: nat) = of_char (CHR ''0'')" unfolding a b by simp
    then show "digit_char d = CHR ''0''" by (simp only: of_char_eq_iff)
  qed
qed

lemma nat_of_digits_snoc: "nat_of_digits (xs @ [c]) = 10 * nat_of_digits xs + digit_val c"
  by (simp add: nat_of_digits_def)

lemma nat_of_digits_show_nat: "nat_of_digits (show_nat n) = n"
proof (induction n rule: show_nat.induct)
  case (1 n)
  show ?case
  proof (cases "n < 10")
    case True
    then show ?thesis
      by (simp add: show_nat.simps [of n] nat_of_digits_def digit_val_digit_char)
  next
    case False
    then show ?thesis
      using "1.IH" by (simp add: show_nat.simps [of n] nat_of_digits_snoc digit_val_digit_char)
  qed
qed

lemma digits_show_nat: "list_all is_digit (show_nat n)"
proof (induction n rule: show_nat.induct)
  case (1 n)
  show ?case
  proof (cases "n < 10")
    case True
    then show ?thesis by (simp add: show_nat.simps [of n] is_digit_digit_char)
  next
    case False
    then show ?thesis using "1.IH" by (simp add: show_nat.simps [of n] is_digit_digit_char)
  qed
qed

lemma show_nat_head:
  "\<exists>c r. show_nat n = c # r \<and> is_digit c \<and> ((c = CHR ''0'') = (n = 0)) \<and> (n = 0 \<longrightarrow> r = [])"
proof (induction n rule: show_nat.induct)
  case (1 n)
  show ?case
  proof (cases "n < 10")
    case True
    then show ?thesis
      by (simp add: show_nat.simps [of n] is_digit_digit_char digit_char_eq_zero)
  next
    case False
    then have nz: "n div 10 \<noteq> 0" "n \<noteq> 0" by simp_all
    from "1.IH" False obtain c r where
      h: "show_nat (n div 10) = c # r" and dc: "is_digit c"
      and z: "(c = CHR ''0'') = (n div 10 = 0)"
      by auto
    have "show_nat n = c # (r @ [digit_char (n mod 10)])"
      using False h by (simp add: show_nat.simps [of n])
    moreover have "c \<noteq> CHR ''0''" using z nz by simp
    ultimately show ?thesis using dc nz by simp
  qed
qed

lemma is_digit_not_minus: "is_digit c \<Longrightarrow> c \<noteq> CHR ''-''"
  by (auto simp add: is_digit_def byte_in_def)

lemma redis_int_neg:
  "d \<noteq> CHR ''0'' \<Longrightarrow> list_all is_digit (d # r) \<Longrightarrow> in_int64 (- int (nat_of_digits (d # r)))
   \<Longrightarrow> redis_int (CHR ''-'' # d # r) = Some (- int (nat_of_digits (d # r)))"
  by (simp add: redis_int_def)

lemma redis_int_pos:
  "c \<noteq> CHR ''0'' \<Longrightarrow> c \<noteq> CHR ''-'' \<Longrightarrow> list_all is_digit (c # r)
   \<Longrightarrow> in_int64 (int (nat_of_digits (c # r)))
   \<Longrightarrow> redis_int (c # r) = Some (int (nat_of_digits (c # r)))"
  by (simp add: redis_int_def)

lemma redis_int_zero: "redis_int ''0'' = Some 0"
  by (simp add: redis_int_def)

lemma redis_int_show_int:
  assumes "in_int64 i"
  shows "redis_int (show_int i) = Some i"
proof (cases "i < 0")
  case True
  from show_nat_head [of "nat (- i)"] obtain c r where
    h: "show_nat (nat (- i)) = c # r" and dc: "is_digit c"
    and z: "(c = CHR ''0'') = (nat (- i) = 0)"
    by auto
  from True z have nz: "c \<noteq> CHR ''0''" by simp
  have v: "- int (nat_of_digits (c # r)) = i"
    using nat_of_digits_show_nat [of "nat (- i)"] h True by simp
  have d: "list_all is_digit (c # r)" using digits_show_nat [of "nat (- i)"] h by simp
  have s: "show_int i = CHR ''-'' # c # r" using True h by (simp add: show_int_def)
  have "redis_int (CHR ''-'' # c # r) = Some (- int (nat_of_digits (c # r)))"
    using nz d assms v by (intro redis_int_neg) simp_all
  then show ?thesis unfolding s v .
next
  case False
  from show_nat_head [of "nat i"] obtain c r where
    h: "show_nat (nat i) = c # r" and dc: "is_digit c"
    and z: "(c = CHR ''0'') = (nat i = 0)" and e: "nat i = 0 \<longrightarrow> r = []"
    by auto
  have v: "int (nat_of_digits (c # r)) = i"
    using nat_of_digits_show_nat [of "nat i"] h False by simp
  have d: "list_all is_digit (c # r)" using digits_show_nat [of "nat i"] h by simp
  have s: "show_int i = c # r" using False h by (simp add: show_int_def)
  show ?thesis
  proof (cases "i = 0")
    case True
    then have "c = CHR ''0''" "r = []" using z e by simp_all
    then show ?thesis unfolding s using True redis_int_zero by simp
  next
    case nz: False
    then have c0: "c \<noteq> CHR ''0''" using False z by simp
    have cm: "c \<noteq> CHR ''-''" using is_digit_not_minus [OF dc] .
    have "redis_int (c # r) = Some (int (nat_of_digits (c # r)))"
      using c0 cm d assms v by (intro redis_int_pos) simp_all
    then show ?thesis unfolding s v .
  qed
qed

subsection \<open>Reading a configuration, sending a message, counting\<close>

lemma redis_conn_eq: "redis_conn c k w = (store_up w, snd (redis_conn c k w))"
  by (simp add: prod_eq_iff redis_conn_up)

lemma redis_hgetall_up:
  "store_up w \<Longrightarrow> fst (redis_hgetall k w) =
     (case map_of (db w) k of None \<Rightarrow> Inr [] | Some (RHash h) \<Rightarrow> Inr h | Some (RStr v) \<Rightarrow> Inl ResponseError)"
  by (subst redis_hgetall_def, subst redis_conn_eq) (simp split: option.splits rval.splits)

lemma redis_hgetall_down:
  "\<not> store_up w \<Longrightarrow> fst (redis_hgetall k w) = Inl ConnectionError"
  by (subst redis_hgetall_def, subst redis_conn_eq) simp

lemma redis_hgetall_result:
  "fst (redis_hgetall k w) = Inr c \<Longrightarrow>
     (case map_of (db w) k of None \<Rightarrow> c = [] | Some (RHash h) \<Rightarrow> c = h | Some (RStr v) \<Rightarrow> False)"
  by (cases "store_up w") (auto simp add: redis_hgetall_up redis_hgetall_down split: option.splits rval.splits)

lemma text_field_empty:
  "nonempty (map_of c f) = None \<Longrightarrow> text_field c f = Inr []"
  by (auto simp add: text_field_def nonempty_def decode_def split: option.splits list.splits)

lemma config_of_hash_server:
  "fst (config_of_hash L cs c w) = Inr cfg \<Longrightarrow> text_field c ''smtp_server'' = Inr (smtp_server cfg)"
  by (auto simp add: config_of_hash_def case_prod_beta split: sum.splits)

lemma get_user_config_some:
  assumes "fst (get_user_config L cs u w) = Inr (Some cfg)"
  shows "\<exists>c. fst (redis_hgetall (user_key u) w) = Inr c \<and> c \<noteq> [] \<and>
             fst (config_of_hash L cs c (snd (redis_hgetall (user_key u) w))) = Inr cfg"
  using assms
  by (auto simp add: get_user_config_def get_user_config_try_def handle_error_quiet case_prod_beta
      split: sum.splits if_splits)

lemma send_email_cases:
  obtains
    (absent) w1 where "get_user_config L cs u w = (Inr None, w1)"
      "send_email L cs u to subj body atts w = (Inl SMTPNotConfigured, w1)"
  | (no_server) cfg w1 where "get_user_config L cs u w = (Inr (Some cfg), w1)"
      "smtp_server cfg = []"
      "send_email L cs u to subj body atts w = (Inl SMTPNotConfigured, w1)"
  | (refused) cfg w1 e w2 where "get_user_config L cs u w = (Inr (Some cfg), w1)"
      "smtp_server cfg \<noteq> []"
      "smtp_session (smtp_server cfg) (smtp_port cfg) (email cfg) (password cfg)
         \<lparr>subject = subj, sender = email cfg, recipient = to,
          parts = TextPlain body # attach_files atts\<rparr> w1 = (Inl e, w2)"
      "send_email L cs u to subj body atts w = (Inl e, w2)"
  | (sent) cfg w1 w2 where "get_user_config L cs u w = (Inr (Some cfg), w1)"
      "smtp_server cfg \<noteq> []"
      "smtp_session (smtp_server cfg) (smtp_port cfg) (email cfg) (password cfg)
         \<lparr>subject = subj, sender = email cfg, recipient = to,
          parts = TextPlain body # attach_files atts\<rparr> w1 = (Inr (), w2)"
      "send_email L cs u to subj body atts w = track_stat ''emails_sent'' w2"
proof -
  obtain r w1 where g: "get_user_config L cs u w = (Inr r, w1)"
    using get_user_config_total [of L cs u w] by (metis prod.collapse)
  show thesis
  proof (cases r)
    case None
    then show thesis using g absent by (simp add: send_email_def)
  next
    case (Some cfg)
    show thesis
    proof (cases "smtp_server cfg = []")
      case True
      then show thesis using g Some no_server by (simp add: send_email_def)
    next
      case False
      let ?msg = "\<lparr>subject = subj, sender = email cfg, recipient = to,
                     parts = TextPlain body # attach_files atts\<rparr>"
      obtain sr w2 where m: "smtp_session (smtp_server cfg) (smtp_port cfg) (email cfg)
          (password cfg) ?msg w1 = (sr, w2)" by fastforce
      show thesis
      proof (cases sr)
        case (Inl e)
        then show thesis using g Some False m refused [of cfg w1 e w2] by (simp add: send_email_def)
      next
        case (Inr x)
        then show thesis using g Some False m sent [of cfg w1 w2] by (simp add: send_email_def)
      qed
    qed
  qed
qed

lemma decrypt_data_log:
  "fst (decrypt_data L cs t w) = Inr p \<Longrightarrow> log (snd (decrypt_data L cs t w)) = log w"
  by (auto simp add: decrypt_data_def split: sum.splits)

lemma secret_field_log:
  "fst (secret_field L cs c f w) = Inr v \<Longrightarrow> log (snd (secret_field L cs c f w)) = log w"
  by (auto simp add: secret_field_def case_prod_beta decrypt_data_log split: option.splits sum.splits)

lemma config_of_hash_log:
  "fst (config_of_hash L cs c w) = Inr cfg \<Longrightarrow> log (snd (config_of_hash L cs c w)) = log w"
  by (auto simp add: config_of_hash_def case_prod_beta secret_field_log split: sum.splits)

lemma redis_hgetall_log [simp]: "log (snd (redis_hgetall k w)) = log w"
  by (simp add: redis_hgetall_def case_prod_beta split: bool.splits option.splits rval.splits)

lemma get_user_config_log:
  "fst (get_user_config L cs u w) = Inr (Some cfg) \<Longrightarrow> log (snd (get_user_config L cs u w)) = log w"
  by (auto simp add: get_user_config_def get_user_config_try_def handle_error_quiet case_prod_beta
      config_of_hash_log split: sum.splits if_splits)

lemma smtp_session_log [simp]: "log (snd (smtp_session h p u pw m w)) = log w"
  by (simp add: smtp_session_def Let_def emit_def)

lemma redis_incr_effect:
  "(\<exists>e. fst (redis_incr k w) = Inl e \<and> db (snd (redis_incr k w)) = db w) \<or>
   (\<exists>n. fst (redis_incr k w) = Inr (n + 1) \<and> redis_counter (map_of (db w) k) = Some n \<and>
        in_int64 (n + 1) \<and>
        db (snd (redis_incr k w)) = AList.update k (RStr (show_int (n + 1))) (db w))"
proof (cases "store_up w")
  case False
  then have "redis_incr k w = (Inl ConnectionError, snd (redis_conn ''INCR'' k w))"
    by (subst redis_incr_def, subst redis_conn_eq) simp
  then show ?thesis by simp
next
  case True
  let ?w1 = "snd (redis_conn ''INCR'' k w)"
  have e: "redis_incr k w =
      (case redis_counter (map_of (db w) k) of
         None \<Rightarrow> (Inl ResponseError, ?w1)
       | Some n \<Rightarrow>
           (if in_int64 (n + 1)
            then (Inr (n + 1), ?w1\<lparr>db := AList.update k (RStr (show_int (n + 1))) (db w)\<rparr>)
            else (Inl ResponseError, ?w1)))"
    using True by (subst redis_incr_def, subst redis_conn_eq) (simp split: option.splits)
  show ?thesis
  proof (cases "redis_counter (map_of (db w) k)")
    case None
    then show ?thesis using e by simp
  next
    case (Some n)
    then show ?thesis using e by (cases "in_int64 (n + 1)") simp_all
  qed
qed

lemma redis_incr_log [simp]: "log (snd (redis_incr k w)) = log w"
  by (simp add: redis_incr_def case_prod_beta split: bool.splits option.splits)

lemma track_stat_effect:
  "(\<exists>e. db (snd (track_stat m w)) = db w \<and>
        log (snd (track_stat m w)) = log w @ [(ERROR, StatTrackingError e)]) \<or>
   (\<exists>n. redis_counter (map_of (db w) (stat_key m)) = Some n \<and> in_int64 (n + 1) \<and>
        db (snd (track_stat m w)) = AList.update (stat_key m) (RStr (show_int (n + 1))) (db w) \<and>
        log (snd (track_stat m w)) = log w)"
  using redis_incr_effect [of "stat_key m" w]
  by (auto simp add: track_stat_def case_prod_beta split: sum.splits)

lemma counter_after_update:
  "in_int64 i \<Longrightarrow> redis_counter (map_of (AList.update k (RStr (show_int i)) d) k) = Some i"
  by (simp add: update_conv' redis_counter_def redis_int_show_int)

subsection \<open>Encryption and key set-up\<close>


lemma decrypt_data_invalid:
  "fernet_decrypt L cs t = Inl e \<Longrightarrow> fst (decrypt_data L cs t w) = Inl e"
  by (simp add: decrypt_data_def)

lemma secret_field_invalid:
  "nonempty (map_of c f) = Some t \<Longrightarrow> fernet_decrypt L cs t = Inl e
   \<Longrightarrow> fst (secret_field L cs c f w) = Inl e"
  by (simp add: secret_field_def case_prod_beta decrypt_data_invalid)

lemma config_of_hash_fails:
  assumes "(\<exists>t. nonempty (map_of c ''email'') = Some t \<and> fernet_decrypt L cs t = Inl InvalidToken)
         \<or> (\<exists>t. nonempty (map_of c ''password'') = Some t \<and> fernet_decrypt L cs t = Inl InvalidToken)"
  shows "\<exists>e. fst (config_of_hash L cs c w) = Inl e"
  using assms
  by (auto simp add: config_of_hash_def case_prod_beta secret_field_invalid split: sum.splits)

lemma get_user_config_result:
  "fst (get_user_config L cs u w) =
     (case fst (get_user_config_try L cs u w) of Inl e \<Rightarrow> Inr None | Inr r \<Rightarrow> Inr r)"
  by (simp add: get_user_config_def handle_error_quiet case_prod_beta split: sum.splits)

lemma get_user_config_log_error:
  "fst (get_user_config_try L cs u w) = Inl e \<Longrightarrow>
   log (snd (get_user_config L cs u w)) = log (snd (get_user_config_try L cs u w)) @ [(ERROR, ConfigError u e)]"
  by (simp add: get_user_config_def handle_error_quiet case_prod_beta split: sum.splits)

lemma redis_incr_io [simp]: "io (snd (redis_incr k w)) = io w @ [Redis ''INCR'' k]"
  by (simp add: redis_incr_def case_prod_beta split: bool.splits option.splits)

lemma track_stat_io [simp]: "io (snd (track_stat m w)) = io w @ [Redis ''INCR'' (stat_key m)]"
  by (simp add: track_stat_def case_prod_beta split: sum.splits)

lemma redis_get_down:
  "\<not> store_up w \<Longrightarrow> redis_get k w = (Inl ConnectionError, snd (redis_conn ''GET'' k w))"
  by (subst redis_get_def, subst redis_conn_eq) simp

lemma redis_get_up:
  "store_up w \<Longrightarrow> redis_get k w =
     (case map_of (db w) k of
        None \<Rightarrow> (Inr None, snd (redis_conn ''GET'' k w))
      | Some (RStr v) \<Rightarrow> (Inr (Some v), snd (redis_conn ''GET'' k w))
      | Some (RHash h) \<Rightarrow> (Inl ResponseError, snd (redis_conn ''GET'' k w)))"
  by (subst redis_get_def, subst redis_conn_eq) (simp split: option.splits rval.splits)

lemma redis_conn_env [simp]: "env_encryption_key (snd (redis_conn c k w)) = env_encryption_key w"
  by (simp add: redis_conn_def emit_def split: list.splits)

lemma redis_set_down:
  "\<not> store_up w \<Longrightarrow> redis_set k v w = (Inl ConnectionError, snd (redis_conn ''SET'' k w))"
  by (subst redis_set_def, subst redis_conn_eq) simp

lemma redis_set_up:
  "store_up w \<Longrightarrow> redis_set k v w =
     (Inr (), snd (redis_conn ''SET'' k w)\<lparr>db := AList.update k (RStr v) (db w)\<rparr>)"
  by (subst redis_set_def, subst redis_conn_eq) simp

lemma setup_encryption_result:
  "fst (setup_encryption L nk w) = fst (setup_encryption_try L nk w)"
  by (simp add: setup_encryption_def case_prod_beta split: sum.splits)

lemma setup_encryption_db:
  "db (snd (setup_encryption L nk w)) = db (snd (setup_encryption_try L nk w))"
  by (simp add: setup_encryption_def case_prod_beta split: sum.splits)

lemma setup_encryption_env:
  "env_encryption_key (snd (setup_encryption L nk w)) = env_encryption_key (snd (setup_encryption_try L nk w))"
  by (simp add: setup_encryption_def case_prod_beta logger_def split: sum.splits)

text \<open>The three sources, each as an equation.\<close>

lemma setup_from_store:
  assumes "store_up w" and "map_of (db w) ''fernet_key'' = Some (RStr (c # cs))"
  shows "setup_encryption_try L nk w = (new_fernet L (c # cs), snd (redis_conn ''GET'' ''fernet_key'' w))"
  using assms by (simp add: setup_encryption_try_def redis_get_up nonempty_def)

lemma setup_from_env:
  assumes "store_up w"
    and "map_of (db w) ''fernet_key'' = None \<or> map_of (db w) ''fernet_key'' = Some (RStr [])"
    and "env_encryption_key w = Some (c # cs)"
  shows "setup_encryption_try L nk w =
     (new_fernet L (encode (c # cs)), snd (redis_conn ''GET'' ''fernet_key'' w))"
  using assms by (auto simp add: setup_encryption_try_def redis_get_up nonempty_def)

lemma setup_fresh:
  assumes "store_up w"
    and "map_of (db w) ''fernet_key'' = None \<or> map_of (db w) ''fernet_key'' = Some (RStr [])"
    and "nonempty (env_encryption_key w) = None"
    and "store_up (snd (redis_conn ''GET'' ''fernet_key'' w))"
  shows "fst (setup_encryption_try L nk w) = new_fernet L nk"
    and "db (snd (setup_encryption_try L nk w)) = AList.update ''fernet_key'' (RStr nk) (db w)"
  using assms by (auto simp add: setup_encryption_try_def redis_get_up redis_set_up nonempty_def)

lemma nonempty_Some: "nonempty v = Some k \<Longrightarrow> v = Some k \<and> k \<noteq> []"
  by (auto simp add: nonempty_def split: option.splits list.splits)

lemma nonempty_None: "nonempty v = None \<Longrightarrow> v = None \<or> v = Some []"
  by (auto simp add: nonempty_def split: option.splits list.splits)

lemma redis_get_result:
  "fst (redis_get k w) = Inr v \<Longrightarrow>
     store_up w \<and> (case v of None \<Rightarrow> map_of (db w) k = None | Some b \<Rightarrow> map_of (db w) k = Some (RStr b))"
  by (cases "store_up w") (auto simp add: redis_get_up redis_get_down split: option.splits rval.splits)

lemma redis_get_db [simp]: "db (snd (redis_get k w)) = db w"
  by (cases "store_up w") (auto simp add: redis_get_up redis_get_down split: option.splits rval.splits)

lemma redis_get_env [simp]: "env_encryption_key (snd (redis_get k w)) = env_encryption_key w"
  by (cases "store_up w") (auto simp add: redis_get_up redis_get_down split: option.splits rval.splits)

lemma redis_set_result:
  "fst (redis_set k v w) = Inr x \<Longrightarrow> db (snd (redis_set k v w)) = AList.update k (RStr v) (db w)"
  by (cases "store_up w") (auto simp add: redis_set_up redis_set_down)

lemma redis_set_env [simp]: "env_encryption_key (snd (redis_set k v w)) = env_encryption_key w"
  by (cases "store_up w") (auto simp add: redis_set_up redis_set_down)

lemma setup_success_cases [consumes 1, case_names stored environment fresh]:
  assumes "setup_encryption L nk w = (Inr cs, w1)"
  obtains
    (stored) k where "map_of (db w) ''fernet_key'' = Some (RStr k)" "k \<noteq> []"
      "new_fernet L k = Inr cs" "db w1 = db w" "env_encryption_key w1 = env_encryption_key w"
  | (environment) k where
      "map_of (db w) ''fernet_key'' = None \<or> map_of (db w) ''fernet_key'' = Some (RStr [])"
      "env_encryption_key w = Some k" "k \<noteq> []"
      "new_fernet L (encode k) = Inr cs" "db w1 = db w" "env_encryption_key w1 = env_encryption_key w"
  | (fresh)
      "map_of (db w) ''fernet_key'' = None \<or> map_of (db w) ''fernet_key'' = Some (RStr [])"
      "nonempty (env_encryption_key w) = None"
      "new_fernet L nk = Inr cs" "db w1 = AList.update ''fernet_key'' (RStr nk) (db w)"
      "env_encryption_key w1 = env_encryption_key w"
proof -
  have r: "fst (setup_encryption_try L nk w) = Inr cs"
    using assms setup_encryption_result [of L nk w] by simp
  have d: "db w1 = db (snd (setup_encryption_try L nk w))"
    using assms setup_encryption_db [of L nk w] by simp
  have e: "env_encryption_key w1 = env_encryption_key (snd (setup_encryption_try L nk w))"
    using assms setup_encryption_env [of L nk w] by simp
  obtain g wg where g: "redis_get ''fernet_key'' w = (g, wg)" by fastforce
  have dg: "db wg = db w" and eg: "env_encryption_key wg = env_encryption_key w"
    using redis_get_db [of "''fernet_key''" w] redis_get_env [of "''fernet_key''" w] g by simp_all
  show thesis
  proof (cases g)
    case (Inl x)
    then show thesis using r g by (simp add: setup_encryption_try_def)
  next
    case (Inr key)
    have gr: "fst (redis_get ''fernet_key'' w) = Inr key" using g Inr by simp
    show thesis
    proof (cases "nonempty key")
      case (Some k)
      from nonempty_Some [OF Some] have k: "key = Some k" "k \<noteq> []" by simp_all
      have m: "map_of (db w) ''fernet_key'' = Some (RStr k)"
        using redis_get_result [OF gr] k by simp
      show thesis
        using stored [of k] m k r d e g Inr Some dg eg by (simp add: setup_encryption_try_def)
    next
      case None
      note nk = None
      have ab: "map_of (db w) ''fernet_key'' = None \<or> map_of (db w) ''fernet_key'' = Some (RStr [])"
        using redis_get_result [OF gr] nonempty_None [OF None] by auto
      show thesis
      proof (cases "nonempty (env_encryption_key wg)")
        case (Some k)
        from nonempty_Some [OF Some] have k: "env_encryption_key w = Some k" "k \<noteq> []"
          using eg by simp_all
        show thesis
          using environment [of k] ab k r d e g Inr nk Some dg eg by (simp add: setup_encryption_try_def)
      next
        case None
        have en: "nonempty (env_encryption_key w) = None" using None eg by simp
        obtain s ws where s: "redis_set ''fernet_key'' nk wg = (s, ws)" by fastforce
        show thesis
        proof (cases s)
          case (Inl x)
          then show thesis using r g Inr nk None s by (simp add: setup_encryption_try_def)
        next
          case (Inr u)
          have "db ws = AList.update ''fernet_key'' (RStr nk) (db w)"
            using redis_set_result [of "''fernet_key''" nk wg u] s Inr dg by simp
          moreover have "env_encryption_key ws = env_encryption_key w"
            using redis_set_env [of "''fernet_key''" nk wg] s eg by simp
          ultimately show thesis
            using fresh ab en r d e g \<open>g = Inr key\<close> nk None s Inr by (simp add: setup_encryption_try_def)
        qed
      qed
    qed
  qed
qed

lemma store_up_no_faults: "redis_faults w = [] \<Longrightarrow> store_up w"
  by (simp add: store_up_def)

lemma redis_conn_no_faults:
  "redis_faults w = [] \<Longrightarrow> redis_faults (snd (redis_conn c k w)) = []"
  by (simp add: redis_conn_def emit_def)

subsection \<open>The configuration dialogue on a store that answers\<close>

lemma temp_key_not_user_key [simp]:
  "temp_data_key u \<noteq> user_key u'" "user_key u' \<noteq> temp_data_key u"
  by (simp_all add: temp_data_key_def user_key_def)


lemma emit_faults [simp]: "redis_faults (emit e w) = redis_faults w"
  by (simp add: emit_def)

lemma emit_db [simp]: "db (emit e w) = db w"
  by (simp add: emit_def)














section \<open>The claims\<close>

subsection \<open>Statistics are best effort\<close>

text \<open>
  Claim C8. \<open>track_stat\<close> returns normally in every world: when the increment fails
  (connection failure, a counter that is not an integer, overflow) the failure is logged
  and that is all, so it never reaches the operation being measured; and reading a metric
  that the store does not hold gives 0, when the store answers.
\<close>

theorem track_stat_isolated:
  "fst (track_stat metric w) = Inr ()
   \<and> (\<forall>e. fst (redis_incr (stat_key metric) w) = Inl e \<longrightarrow>
         snd (track_stat metric w) =
           logger ERROR (StatTrackingError e) (snd (redis_incr (stat_key metric) w)))
   \<and> (store_up w \<and> map_of (db w) (stat_key metric) = None
         \<longrightarrow> fst (read_stat metric w) = Inr (IntVal 0))"
proof (intro conjI)
  show "fst (track_stat metric w) = Inr ()"
    by (simp add: track_stat_def split: prod.splits sum.splits)
next
  show "\<forall>e. fst (redis_incr (stat_key metric) w) = Inl e \<longrightarrow>
         snd (track_stat metric w) =
           logger ERROR (StatTrackingError e) (snd (redis_incr (stat_key metric) w))"
    by (simp add: track_stat_def case_prod_beta)
next
  show "store_up w \<and> map_of (db w) (stat_key metric) = None
      \<longrightarrow> fst (read_stat metric w) = Inr (IntVal 0)"
  proof
    assume h: "store_up w \<and> map_of (db w) (stat_key metric) = None"
    obtain b w1 where c: "redis_conn ''GET'' (stat_key metric) w = (b, w1)" by fastforce
    from h c have "b" using redis_conn_up[of "''GET''" "stat_key metric" w] by simp
    moreover from c have "db w1 = db w" using redis_conn_db[of "''GET''" "stat_key metric" w] by simp
    ultimately show "fst (read_stat metric w) = Inr (IntVal 0)"
      using h c by (simp add: read_stat_def redis_get_def nonempty_def)
  qed
qed

theorem track_stat_isolated_witness:
  "store_up w0 \<and> map_of (db w0) (stat_key ''emails_sent'') = None
   \<and> fst (read_stat ''emails_sent'' w0) = Inr (IntVal 0)
   \<and> fst (redis_incr (stat_key ''emails_sent'') (w0\<lparr>redis_faults := [True]\<rparr>)) = Inl ConnectionError
   \<and> fst (track_stat ''emails_sent'' (w0\<lparr>redis_faults := [True]\<rparr>)) = Inr ()
   \<and> log (snd (track_stat ''emails_sent'' (w0\<lparr>redis_faults := [True]\<rparr>)))
       = [(ERROR, StatTrackingError ConnectionError)]"
proof -
  have 1: "store_up w0 \<and> map_of (db w0) (stat_key ''emails_sent'') = None"
    by (simp add: store_up_def w0_def)
  have 2: "fst (redis_incr (stat_key ''emails_sent'') (w0\<lparr>redis_faults := [True]\<rparr>)) = Inl ConnectionError"
    by code_simp
  have 3: "log (snd (redis_incr (stat_key ''emails_sent'') (w0\<lparr>redis_faults := [True]\<rparr>))) = []"
    by code_simp
  from track_stat_isolated [of "''emails_sent''" w0]
    track_stat_isolated [of "''emails_sent''" "w0\<lparr>redis_faults := [True]\<rparr>"]
  show ?thesis using 1 2 3 by simp
qed

subsection \<open>Admin commands\<close>

text \<open>
  Claim C9. When the sender of \<^verbatim>\<open>/logs\<close> or \<^verbatim>\<open>/users\<close> is not in the admin list, the only
  thing the handler does to the outside is to answer with the unauthorized message: the log
  file is not opened, the store is not queried, no file and no statistics are sent, and the
  store is unchanged.
\<close>

theorem admin_commands_refuse_strangers:
  assumes "sender_id event \<notin> set admins"
  shows "io (snd (logs_handler admins event w)) = io w @ [Respond (Text (no_entry @ '' Unauthorized''))]
       \<and> io (snd (users_handler admins event w)) = io w @ [Respond (Text (no_entry @ '' Unauthorized''))]
       \<and> db (snd (logs_handler admins event w)) = db w
       \<and> db (snd (users_handler admins event w)) = db w"
  using assms
  by (simp add: logs_handler_def logs_handler_try_def users_handler_def users_handler_try_def
      handle_error_quiet case_prod_beta split: sum.splits)

theorem admin_commands_refuse_strangers_witness:
  "sender_id \<lparr>sender_id = 7\<rparr> \<notin> set [1001, 1002]
   \<and> io (snd (logs_handler [1001, 1002] \<lparr>sender_id = 7\<rparr> w0)) = [Respond (Text (no_entry @ '' Unauthorized''))]
   \<and> io (snd (users_handler [1001, 1002] \<lparr>sender_id = 7\<rparr> w0)) = [Respond (Text (no_entry @ '' Unauthorized''))]"
  using admin_commands_refuse_strangers [of "\<lparr>sender_id = 7\<rparr>" "[1001, 1002]" w0]
  by (simp add: w0_def)

subsection \<open>Sending mail\<close>

text \<open>
  Claim C3, as the code has it. \<open>send_email\<close> looks at the existence of the record and at
  its SMTP server, not at its mode: a record whose mode is not \<open>configured\<close> is used to send.
\<close>

theorem send_email_ignores_mode_counterexample:
  "(case map_of (db w42_unset) (user_key 42) of
      Some (RHash c) \<Rightarrow> map_of c ''mode'' | _ \<Rightarrow> None) = Some ''unset''
   \<and> fst (send_email demo_fernet (Fernet ''key1'') 42 ''b@example.com'' ''Hi'' ''body'' None w42_unset)
       = Inr ()
   \<and> SmtpConnect ''smtp.example.com'' 587
       \<in> set (io (snd (send_email demo_fernet (Fernet ''key1'') 42 ''b@example.com'' ''Hi'' ''body''
                          None w42_unset)))"
  by code_simp

text \<open>
  Claim C3, amended. If the store holds no record for the user, or the record's SMTP server
  is missing or empty, \<open>send_email\<close> fails with "SMTP not configured", the store (and with it
  the counter \<open>emails_sent\<close>) is unchanged, and the only thing done to the outside is the read
  of the record: no connection to a mail server is attempted.
\<close>

theorem send_email_not_configured:
  assumes "map_of (db w) (user_key u) = None \<or>
           (\<exists>c. map_of (db w) (user_key u) = Some (RHash c) \<and> nonempty (map_of c ''smtp_server'') = None)"
  shows "fst (send_email L cs u to subj body atts w) = Inl SMTPNotConfigured
       \<and> db (snd (send_email L cs u to subj body atts w)) = db w
       \<and> io (snd (send_email L cs u to subj body atts w)) = io w @ [Redis ''HGETALL'' (user_key u)]"
proof -
  have no: "\<And>cfg. fst (get_user_config L cs u w) = Inr (Some cfg) \<Longrightarrow> smtp_server cfg = []"
  proof -
    fix cfg assume a: "fst (get_user_config L cs u w) = Inr (Some cfg)"
    from get_user_config_some [OF a] obtain c where
      c: "fst (redis_hgetall (user_key u) w) = Inr c" "c \<noteq> []"
         "fst (config_of_hash L cs c (snd (redis_hgetall (user_key u) w))) = Inr cfg" by blast
    from redis_hgetall_result [OF c(1)] c(2) assms
    have "nonempty (map_of c ''smtp_server'') = None"
      by (auto split: option.splits rval.splits)
    then show "smtp_server cfg = []"
      using config_of_hash_server [OF c(3)] text_field_empty by fastforce
  qed
  have d: "db (snd (get_user_config L cs u w)) = db w"
    and i: "io (snd (get_user_config L cs u w)) = io w @ [Redis ''HGETALL'' (user_key u)]"
    by simp_all
  show ?thesis
  proof (cases rule: send_email_cases [of L cs u w to subj body atts])
    case (absent w1)
    then show ?thesis using d i by simp
  next
    case (no_server cfg w1)
    then show ?thesis using d i by simp
  next
    case (refused cfg w1 e w2)
    then show ?thesis using no [of cfg] by simp
  next
    case (sent cfg w1 w2)
    then show ?thesis using no [of cfg] by simp
  qed
qed

theorem send_email_not_configured_witness:
  "map_of (db w0) (user_key 42) = None
   \<and> fst (send_email demo_fernet (Fernet ''key1'') 42 ''b@example.com'' ''Hi'' ''body'' None w0)
       = Inl SMTPNotConfigured
   \<and> db (snd (send_email demo_fernet (Fernet ''key1'') 42 ''b@example.com'' ''Hi'' ''body'' None w0)) = []"
proof -
  have h: "map_of (db w0) (user_key 42) = None" by (simp add: w0_def)
  from send_email_not_configured [of w0 42 demo_fernet "Fernet ''key1''" "''b@example.com''" "''Hi''"
      "''body''" None] h
  show ?thesis by (simp add: w0_def)
qed

text \<open>
  Claim C6, as the code has it. The increment is best effort: when the store fails between
  the read of the configuration and the increment, the message is sent, the call succeeds,
  and the counter stays where it was.
\<close>

theorem emails_sent_lost_counterexample:
  "fst (send_email demo_fernet (Fernet ''key1'') 42 ''b@example.com'' ''Hi'' ''body'' None
          (w42\<lparr>redis_faults := [False, True]\<rparr>)) = Inr ()
   \<and> redis_counter (map_of (db (w42\<lparr>redis_faults := [False, True]\<rparr>)) (stat_key ''emails_sent'')) = Some 0
   \<and> redis_counter (map_of (db (snd (send_email demo_fernet (Fernet ''key1'') 42 ''b@example.com''
          ''Hi'' ''body'' None (w42\<lparr>redis_faults := [False, True]\<rparr>)))) (stat_key ''emails_sent'')) = Some 0"
  by code_simp

text \<open>
  Claim C6, amended. A failing \<open>send_email\<close> leaves the store unchanged. A successful one
  either adds exactly one to \<open>emails_sent\<close> and changes no other key, or, when recording the
  increment fails, logs the failure and leaves the store unchanged.
\<close>

theorem emails_sent_counting:
  assumes "send_email L cs u to subj body atts w = (r, w')"
  shows "(\<forall>e. r = Inl e \<longrightarrow> db w' = db w)
       \<and> (r = Inr () \<longrightarrow>
            (\<exists>n. redis_counter (map_of (db w) (stat_key ''emails_sent'')) = Some n
                \<and> redis_counter (map_of (db w') (stat_key ''emails_sent'')) = Some (n + 1)
                \<and> (\<forall>k. k \<noteq> stat_key ''emails_sent'' \<longrightarrow> map_of (db w') k = map_of (db w) k)
                \<and> log w' = log w)
          \<or> (\<exists>e. db w' = db w \<and> log w' = log w @ [(ERROR, StatTrackingError e)]))"
proof
  show "\<forall>e. r = Inl e \<longrightarrow> db w' = db w"
    using send_email_failure_keeps_db [of L cs u to subj body atts w] assms by simp
next
  show "r = Inr () \<longrightarrow>
            (\<exists>n. redis_counter (map_of (db w) (stat_key ''emails_sent'')) = Some n
                \<and> redis_counter (map_of (db w') (stat_key ''emails_sent'')) = Some (n + 1)
                \<and> (\<forall>k. k \<noteq> stat_key ''emails_sent'' \<longrightarrow> map_of (db w') k = map_of (db w) k)
                \<and> log w' = log w)
          \<or> (\<exists>e. db w' = db w \<and> log w' = log w @ [(ERROR, StatTrackingError e)])"
  proof
    assume ok: "r = Inr ()"
    show "(\<exists>n. redis_counter (map_of (db w) (stat_key ''emails_sent'')) = Some n
                \<and> redis_counter (map_of (db w') (stat_key ''emails_sent'')) = Some (n + 1)
                \<and> (\<forall>k. k \<noteq> stat_key ''emails_sent'' \<longrightarrow> map_of (db w') k = map_of (db w) k)
                \<and> log w' = log w)
          \<or> (\<exists>e. db w' = db w \<and> log w' = log w @ [(ERROR, StatTrackingError e)])"
    proof (cases rule: send_email_cases [of L cs u w to subj body atts])
      case (absent w1)
      then show ?thesis using assms ok by simp
    next
      case (no_server cfg w1)
      then show ?thesis using assms ok by simp
    next
      case (refused cfg w1 e w2)
      then show ?thesis using assms ok by simp
    next
      case (sent cfg w1 w2)
      have d1: "db w1 = db w" using get_user_config_db [of L cs u w] sent(1) by simp
      have l1: "log w1 = log w" using get_user_config_log [of L cs u w cfg] sent(1) by simp
      have d2: "db w2 = db w"
        using arg_cong [OF sent(3), of "\<lambda>x. db (snd x)"] d1 by simp
      have l2: "log w2 = log w"
        using arg_cong [OF sent(3), of "\<lambda>x. log (snd x)"] l1 by simp
      have w': "w' = snd (track_stat ''emails_sent'' w2)" using sent(4) assms by (metis snd_conv)
      from track_stat_effect [of "''emails_sent''" w2]
      show ?thesis
      proof
        assume "\<exists>e. db (snd (track_stat ''emails_sent'' w2)) = db w2 \<and>
          log (snd (track_stat ''emails_sent'' w2)) = log w2 @ [(ERROR, StatTrackingError e)]"
        then show ?thesis using w' d2 l2 by simp
      next
        assume "\<exists>n. redis_counter (map_of (db w2) (stat_key ''emails_sent'')) = Some n \<and>
          in_int64 (n + 1) \<and>
          db (snd (track_stat ''emails_sent'' w2)) =
            AList.update (stat_key ''emails_sent'') (RStr (show_int (n + 1))) (db w2) \<and>
          log (snd (track_stat ''emails_sent'' w2)) = log w2"
        then obtain n where n: "redis_counter (map_of (db w) (stat_key ''emails_sent'')) = Some n"
          "in_int64 (n + 1)"
          "db w' = AList.update (stat_key ''emails_sent'') (RStr (show_int (n + 1))) (db w)"
          "log w' = log w"
          using w' d2 l2 by auto
        have "redis_counter (map_of (db w') (stat_key ''emails_sent'')) = Some (n + 1)"
          unfolding n(3) using counter_after_update [OF n(2)] .
        moreover have "\<forall>k. k \<noteq> stat_key ''emails_sent'' \<longrightarrow> map_of (db w') k = map_of (db w) k"
          unfolding n(3) by (simp add: update_conv')
        ultimately show ?thesis using n(1) n(4) by blast
      qed
    qed
  qed
qed

theorem emails_sent_counting_witness:
  "fst (send_email demo_fernet (Fernet ''key1'') 42 ''b@example.com'' ''Hi'' ''body'' None w42) = Inr ()
   \<and> redis_counter (map_of (db w42) (stat_key ''emails_sent'')) = Some 0
   \<and> redis_counter (map_of (db (snd (send_email demo_fernet (Fernet ''key1'') 42 ''b@example.com''
          ''Hi'' ''body'' None w42))) (stat_key ''emails_sent'')) = Some 1"
proof -
  let ?c = "send_email demo_fernet (Fernet ''key1'') 42 ''b@example.com'' ''Hi'' ''body'' None w42"
  have h: "?c = (fst ?c, snd ?c)" by simp
  have ok: "fst ?c = Inr ()" by code_simp
  have l: "log (snd ?c) = log w42" by code_simp
  have b: "redis_counter (map_of (db w42) (stat_key ''emails_sent'')) = Some 0" by code_simp
  from emails_sent_counting [OF h] ok l b
  have "redis_counter (map_of (db (snd ?c)) (stat_key ''emails_sent'')) = Some 1" by auto
  then show ?thesis using ok b by simp
qed

text \<open>
  Claim C1, at the input where the code departs from it. The ceiling
  \<open>MAX_ATTACHMENT_SIZE\<close> is declared and never compared with anything: \<open>send_email\<close> with
  one attachment of 20 MiB and one byte, for a configured user and a mail server that
  accepts, hands the whole message to the server and succeeds.
\<close>

theorem send_email_oversized_attachment:
  "MAX_ATTACHMENT_SIZE < attachments_total (Some [big_attachment])
   \<and> fst (send_email demo_fernet (Fernet ''key1'') 42 ''b@example.com'' ''Hi'' ''body''
            (Some [big_attachment]) w42) = Inr ()
   \<and> SmtpSend \<lparr>subject = ''Hi'', sender = Some ''a@example.com'', recipient = ''b@example.com'',
               parts = [TextPlain ''body'', Attachment ''big.bin'' (content big_attachment)]\<rparr>
       \<in> set (io (snd (send_email demo_fernet (Fernet ''key1'') 42 ''b@example.com'' ''Hi'' ''body''
                          (Some [big_attachment]) w42)))"
proof -
  have g: "get_user_config demo_fernet (Fernet ''key1'') 42 w42 =
      (Inr (Some \<lparr>smtp_server = ''smtp.example.com'', smtp_port = 587,
                  imap_server = ''imap.example.com'', imap_port = 993,
                  email = Some ''a@example.com'', password = Some ''secret'',
                  mode = ''configured''\<rparr>),
       w42\<lparr>io := [Redis ''HGETALL'' ''user:42:email_config'']\<rparr>)"
    by code_simp
  have f: "smtp_fault w42 = None" by (simp add: w42_def w0_def)
  have s: "MAX_ATTACHMENT_SIZE < attachments_total (Some [big_attachment])"
    by (simp add: attachments_total_def big_attachment_def)
  have e: "send_email demo_fernet (Fernet ''key1'') 42 ''b@example.com'' ''Hi'' ''body''
             (Some [big_attachment]) w42 =
           track_stat ''emails_sent''
             (w42\<lparr>io := [Redis ''HGETALL'' ''user:42:email_config'',
                          SmtpConnect ''smtp.example.com'' 587, SmtpStartTLS,
                          SmtpLogin (Some ''a@example.com'') (Some ''secret''),
                          SmtpSend \<lparr>subject = ''Hi'', sender = Some ''a@example.com'',
                            recipient = ''b@example.com'',
                            parts = [TextPlain ''body'', Attachment ''big.bin'' (content big_attachment)]\<rparr>,
                          SmtpQuit]\<rparr>)"
    by (simp add: send_email_def g f smtp_session_def Let_def emit_def attach_files_def big_attachment_def)
  show ?thesis
    unfolding e using s by (simp add: track_stat_returns)
qed

subsection \<open>The credential vault\<close>



text \<open>
  Claim C2, as the code has it. \<open>get_user_config\<close> wraps its whole body in
  \<^verbatim>\<open>except Exception\<close>: for a record whose email was sealed under another key, the
  \<open>InvalidToken\<close> of \<open>decrypt_data\<close> is logged and the caller gets \<^verbatim>\<open>None\<close>.
\<close>

theorem get_user_config_foreign_key_counterexample:
  "fernet_decrypt demo_fernet (Fernet ''key2'') ''key2a@example.com'' = Inr ''a@example.com''
   \<and> fernet_decrypt demo_fernet (Fernet ''key1'') ''key2a@example.com'' = Inl InvalidToken
   \<and> (case map_of (db w42_foreign) (user_key 42) of
        Some (RHash c) \<Rightarrow> map_of c ''email'' | _ \<Rightarrow> None) = Some ''key2a@example.com''
   \<and> fst (get_user_config demo_fernet (Fernet ''key1'') 42 w42_foreign) = Inr None
   \<and> log (snd (get_user_config demo_fernet (Fernet ''key1'') 42 w42_foreign))
       = [(ERROR, DecryptionFailed InvalidToken), (ERROR, ConfigError 42 InvalidToken)]"
  by code_simp

text \<open>
  Claim C2, amended. For every stored record whose email or password ciphertext does not
  open under the cipher in use, \<open>get_user_config\<close> raises nothing: it returns \<^verbatim>\<open>None\<close>, the
  last line it logs is the configuration error for that user, and the store is unchanged.
\<close>

theorem get_user_config_swallows_decryption_error:
  assumes "map_of (db w) (user_key u) = Some (RHash c)"
    and "(\<exists>t. nonempty (map_of c ''email'') = Some t \<and> fernet_decrypt L cs t = Inl InvalidToken)
       \<or> (\<exists>t. nonempty (map_of c ''password'') = Some t \<and> fernet_decrypt L cs t = Inl InvalidToken)"
  shows "fst (get_user_config L cs u w) = Inr None
       \<and> (\<exists>e. last (log (snd (get_user_config L cs u w))) = (ERROR, ConfigError u e))
       \<and> db (snd (get_user_config L cs u w)) = db w"
proof -
  have "\<exists>e. fst (get_user_config_try L cs u w) = Inl e"
  proof (cases "fst (redis_hgetall (user_key u) w)")
    case (Inl e)
    then show ?thesis by (simp add: get_user_config_try_def case_prod_beta)
  next
    case (Inr c')
    from redis_hgetall_result [OF Inr] assms(1) have c: "c' = c" by simp
    from assms(2) have ne: "c \<noteq> []" by (auto simp add: nonempty_def)
    from config_of_hash_fails [OF assms(2), of "snd (redis_hgetall (user_key u) w)"]
    show ?thesis using Inr c ne by (auto simp add: get_user_config_try_def case_prod_beta)
  qed
  then obtain e where e: "fst (get_user_config_try L cs u w) = Inl e" by blast
  show ?thesis
    using e get_user_config_log_error [OF e] by (simp add: get_user_config_result)
qed

theorem get_user_config_swallows_decryption_error_witness:
  "map_of (db w42_foreign) (user_key 42) = Some (RHash (AList.update ''email'' ''key2a@example.com'' cfg42))
   \<and> nonempty (map_of (AList.update ''email'' ''key2a@example.com'' cfg42) ''email'') = Some ''key2a@example.com''
   \<and> fernet_decrypt demo_fernet (Fernet ''key1'') ''key2a@example.com'' = Inl InvalidToken
   \<and> fst (get_user_config demo_fernet (Fernet ''key1'') 42 w42_foreign) = Inr None"
proof -
  have 1: "map_of (db w42_foreign) (user_key 42)
      = Some (RHash (AList.update ''email'' ''key2a@example.com'' cfg42))" by code_simp
  have 2: "nonempty (map_of (AList.update ''email'' ''key2a@example.com'' cfg42) ''email'')
      = Some ''key2a@example.com''" by code_simp
  have 3: "fernet_decrypt demo_fernet (Fernet ''key1'') ''key2a@example.com'' = Inl InvalidToken"
    by code_simp
  from get_user_config_swallows_decryption_error [OF 1, of demo_fernet "Fernet ''key1''"] 2 3
  show ?thesis using 1 by blast
qed

subsection \<open>Key set-up\<close>

text \<open>
  Claim C7. If a call of \<open>setup_encryption\<close> returned a cipher, then a second call on the
  world that the first one left (same store, same environment, store answering) returns the
  same cipher and leaves the store as it is, whichever of the three sources the first call
  used and whatever key a generator would produce the second time. The library fact used is
  that the empty string is not a key.
\<close>

theorem setup_encryption_idempotent:
  assumes "key_of L [] = None"
    and "setup_encryption L nk w = (Inr cs, w1)"
    and "store_up w1"
  shows "fst (setup_encryption L nk' w1) = Inr cs
       \<and> db (snd (setup_encryption L nk' w1)) = db w1"
  using assms(2)
proof (cases rule: setup_success_cases)
  case (stored k)
  then obtain c r where k: "k = c # r" by (cases k) simp_all
  have "map_of (db w1) ''fernet_key'' = Some (RStr (c # r))" using stored k by simp
  from setup_from_store [OF assms(3) this, of L nk']
  show ?thesis using stored k by (simp add: setup_encryption_result setup_encryption_db)
next
  case (environment k)
  then obtain c r where k: "k = c # r" by (cases k) simp_all
  have a: "map_of (db w1) ''fernet_key'' = None \<or> map_of (db w1) ''fernet_key'' = Some (RStr [])"
    using environment by simp
  have b: "env_encryption_key w1 = Some (c # r)" using environment k by simp
  from setup_from_env [OF assms(3) a b, of L nk']
  show ?thesis using environment k by (simp add: setup_encryption_result setup_encryption_db)
next
  case fresh
  have "nk \<noteq> []" using fresh(3) assms(1) by (auto simp add: new_fernet_def)
  then obtain c r where k: "nk = c # r" by (cases nk) simp_all
  have "map_of (db w1) ''fernet_key'' = Some (RStr (c # r))"
    using fresh k by (simp add: update_conv')
  from setup_from_store [OF assms(3) this, of L nk']
  show ?thesis using fresh k by (simp add: setup_encryption_result setup_encryption_db)
qed

theorem setup_encryption_idempotent_witness:
  "key_of demo_fernet [] = None
   \<and> fst (setup_encryption demo_fernet ''key9'' w0) = Inr (Fernet ''key9'')
   \<and> store_up (snd (setup_encryption demo_fernet ''key9'' w0))
   \<and> fst (setup_encryption demo_fernet ''key7'' (snd (setup_encryption demo_fernet ''key9'' w0)))
       = Inr (Fernet ''key9'')"
proof -
  let ?c = "setup_encryption demo_fernet ''key9'' w0"
  have 1: "key_of demo_fernet [] = None" by code_simp
  have f: "fst ?c = Inr (Fernet ''key9'')" by code_simp
  have 2: "?c = (Inr (Fernet ''key9''), snd ?c)" using f by (simp add: prod_eq_iff)
  have 3: "store_up (snd ?c)" by code_simp
  from setup_encryption_idempotent [OF 1 2 3, of "''key7''"]
  show ?thesis using 1 f 3 by simp
qed

text \<open>
  Claim C10. With no key in the store and a key in the environment, \<open>setup_encryption\<close>
  builds the cipher from the environment key and leaves the store unchanged. A later run on
  that store without the environment variable generates a key, persists it and returns its
  cipher, which is a different one as soon as the generated key has another secret than the
  environment key.
\<close>

theorem env_key_is_not_persisted:
  assumes "store_up w"
    and "map_of (db w) ''fernet_key'' = None"
    and "env_encryption_key w = Some k" and "k \<noteq> []"
    and "w2 = (snd (setup_encryption L nk w))\<lparr>env_encryption_key := None, redis_faults := []\<rparr>"
    and "key_of L nk2 \<noteq> key_of L (encode k)"
  shows "fst (setup_encryption L nk w) = new_fernet L (encode k)
       \<and> db (snd (setup_encryption L nk w)) = db w
       \<and> fst (setup_encryption L nk2 w2) = new_fernet L nk2
       \<and> fst (setup_encryption L nk2 w2) \<noteq> fst (setup_encryption L nk w)
       \<and> map_of (db (snd (setup_encryption L nk2 w2))) ''fernet_key'' = Some (RStr nk2)"
proof -
  from assms(4) obtain c r where k: "k = c # r" by (cases k) simp_all
  have a: "map_of (db w) ''fernet_key'' = None \<or> map_of (db w) ''fernet_key'' = Some (RStr [])"
    using assms(2) by simp
  have e: "env_encryption_key w = Some (c # r)" using assms(3) k by simp
  have t: "setup_encryption_try L nk w =
     (new_fernet L (encode (c # r)), snd (redis_conn ''GET'' ''fernet_key'' w))"
    using setup_from_env [OF assms(1) a e] .
  have 1: "fst (setup_encryption L nk w) = new_fernet L (encode k)"
    using t k by (simp add: setup_encryption_result)
  have 2: "db (snd (setup_encryption L nk w)) = db w"
    using t by (simp add: setup_encryption_db)
  have u2: "store_up w2" using assms(5) by (simp add: store_up_def)
  have d2: "db w2 = db w" using assms(5) 2 by simp
  have a2: "map_of (db w2) ''fernet_key'' = None \<or> map_of (db w2) ''fernet_key'' = Some (RStr [])"
    using d2 assms(2) by simp
  have e2: "nonempty (env_encryption_key w2) = None" using assms(5) by (simp add: nonempty_def)
  have f2: "store_up (snd (redis_conn ''GET'' ''fernet_key'' w2))"
    using assms(5) by (intro store_up_no_faults redis_conn_no_faults) simp
  have 3: "fst (setup_encryption L nk2 w2) = new_fernet L nk2"
    using setup_fresh(1) [OF u2 a2 e2 f2] by (simp add: setup_encryption_result)
  have 4: "db (snd (setup_encryption L nk2 w2)) = AList.update ''fernet_key'' (RStr nk2) (db w2)"
    using setup_fresh(2) [OF u2 a2 e2 f2] by (simp add: setup_encryption_db)
  have 5: "new_fernet L nk2 \<noteq> new_fernet L (encode k)"
    using assms(6)
    by (cases "key_of L nk2"; cases "key_of L (encode k)") (simp_all add: new_fernet_def)
  show ?thesis using 1 2 3 4 5 by (simp add: update_conv')
qed

theorem env_key_is_not_persisted_witness:
  "store_up w_env \<and> map_of (db w_env) ''fernet_key'' = None
   \<and> env_encryption_key w_env = Some ''key1'' \<and> ''key1'' \<noteq> []
   \<and> key_of demo_fernet ''key9'' \<noteq> key_of demo_fernet (encode ''key1'')
   \<and> fst (setup_encryption demo_fernet ''key8'' w_env) = Inr (Fernet ''key1'')
   \<and> db (snd (setup_encryption demo_fernet ''key8'' w_env)) = []
   \<and> fst (setup_encryption demo_fernet ''key9''
        ((snd (setup_encryption demo_fernet ''key8'' w_env))\<lparr>env_encryption_key := None, redis_faults := []\<rparr>))
      = Inr (Fernet ''key9'')"
proof -
  have 1: "store_up w_env" by code_simp
  have 2: "map_of (db w_env) ''fernet_key'' = None" by code_simp
  have 3: "env_encryption_key w_env = Some ''key1''" by code_simp
  have 4: "''key1'' \<noteq> []" by simp
  have 6: "key_of demo_fernet ''key9'' \<noteq> key_of demo_fernet (encode ''key1'')" by code_simp
  have 7: "new_fernet demo_fernet (encode ''key1'') = Inr (Fernet ''key1'')" by code_simp
  have 8: "new_fernet demo_fernet ''key9'' = Inr (Fernet ''key9'')" by code_simp
  have 9: "db w_env = []" by code_simp
  from env_key_is_not_persisted [OF 1 2 3 4 refl 6, of "''key8''"]
  show ?thesis using 1 2 3 6 7 8 9 by simp
qed

subsection \<open>The configuration dialogue\<close>




end
